theory Spec2Isabelle
  imports Main
begin

section \<open>Python strings and built-ins used by the program\<close>

text \<open>
  A Python \<open>str\<close> is modelled as a \<open>string\<close>; one \<open>char\<close> stands for one code point
  below 256. On that range \<open>str.isspace\<close> holds for exactly the twelve characters listed
  in \<open>isspace\<close>, and the regular-expression class \<open>\d\<close> is exactly the ASCII digits.
\<close>

datatype error = ValueError | KeyError | IndexError

text \<open>An exception propagates: the first error ends the computation.\<close>

definition bind_err :: "error + 'a \<Rightarrow> ('a \<Rightarrow> error + 'b) \<Rightarrow> error + 'b" where
  "bind_err m f = (case m of Inl e \<Rightarrow> Inl e | Inr x \<Rightarrow> f x)"

definition startswith :: "string \<Rightarrow> string \<Rightarrow> bool" where
  "startswith s p = (take (length p) s = p)"

definition isspace :: "char \<Rightarrow> bool" where
  "isspace c = (c \<in> set [CHR 0x09, CHR 0x0A, CHR 0x0B, CHR 0x0C, CHR 0x0D,
                          CHR 0x1C, CHR 0x1D, CHR 0x1E, CHR 0x1F, CHR 0x20,
                          CHR 0x85, CHR 0xA0])"

definition strip :: "string \<Rightarrow> string" where
  "strip s = rev (dropWhile isspace (rev (dropWhile isspace s)))"

text \<open>\<open>s.split(sep)\<close> for a non-empty separator: the pieces between the non-overlapping
  occurrences of \<open>sep\<close>, found from the left. \<open>acc\<close> holds the current piece, reversed.\<close>

fun split_aux :: "string \<Rightarrow> string \<Rightarrow> string \<Rightarrow> string list" where
  "split_aux sep acc [] = [rev acc]"
| "split_aux sep acc (c # cs) =
     (if sep \<noteq> [] \<and> startswith (c # cs) sep
      then rev acc # split_aux sep [] (drop (length sep - 1) cs)
      else split_aux sep (c # acc) cs)"

definition split :: "string \<Rightarrow> string \<Rightarrow> string list" where
  "split s sep = split_aux sep [] s"

text \<open>\<open>sub in s\<close> on strings.\<close>

fun contains :: "string \<Rightarrow> string \<Rightarrow> bool" where
  "contains sub [] = (sub = [])"
| "contains sub (c # cs) = (startswith (c # cs) sub \<or> contains sub cs)"

text \<open>\<open>xs[i]\<close> for a non-negative index: out of range raises \<open>IndexError\<close>.\<close>

definition getitem :: "'a list \<Rightarrow> nat \<Rightarrow> error + 'a" where
  "getitem xs i = (if i < length xs then Inr (xs ! i) else Inl IndexError)"

definition isdigit :: "char \<Rightarrow> bool" where
  "isdigit c = (c \<in> set ''0123456789'')"

definition digit_val :: "char \<Rightarrow> int" where
  "digit_val c = int (of_char c) - 48"

text \<open>\<open>int(s)\<close> on the strings the parser passes to it, which are non-empty runs of
  digits. CPython (3.11, the version the package needs) refuses a decimal string of
  more than \<open>sys.int_info.default_max_str_digits = 4300\<close> digits with \<open>ValueError\<close>;
  leading zeros count.\<close>

definition int_max_str_digits :: nat where
  "int_max_str_digits = 4300"

definition digits_value :: "string \<Rightarrow> int" where
  "digits_value s = foldl (\<lambda>a c. 10 * a + digit_val c) 0 s"

definition py_int :: "string \<Rightarrow> error + int" where
  "py_int s =
     (if s = [] \<or> \<not> list_all isdigit s \<or> int_max_str_digits < length s
      then Inl ValueError
      else Inr (digits_value s))"

subsection \<open>The hunk-header pattern\<close>

text \<open>
  \<open>re.match(r"@@ -(\d+),?\d* \+(\d+),?\d* @@.*", line)\<close>, read left to right. The match
  is anchored at the start of the line only. \<open>(\d+)\<close> is greedy and is followed, after the
  optional comma and count, by a literal space, so whenever the pattern matches the
  group is the whole run of digits; the trailing \<open>.*\<close> accepts any rest of the line.
  The result is the pair of captured groups.
\<close>

definition expect :: "string \<Rightarrow> string \<Rightarrow> string option" where
  "expect p s = (if startswith s p then Some (drop (length p) s) else None)"

definition digits1 :: "string \<Rightarrow> (string \<times> string) option" where
  "digits1 s =
     (if takeWhile isdigit s = [] then None
      else Some (takeWhile isdigit s, dropWhile isdigit s))"

text \<open>\<open>,?\d*\<close> after a maximal run of digits.\<close>

definition opt_count :: "string \<Rightarrow> string" where
  "opt_count s =
     (case s of [] \<Rightarrow> [] | c # t \<Rightarrow> if c = CHR '','' then dropWhile isdigit t else s)"

definition hunk_re_match :: "string \<Rightarrow> (string \<times> string) option" where
  "hunk_re_match line =
     Option.bind (expect ''@@ -'' line) (\<lambda>r1.
     Option.bind (digits1 r1) (\<lambda>(g1, r2).
     Option.bind (expect '' '' (opt_count r2)) (\<lambda>r3.
     Option.bind (expect ''+'' r3) (\<lambda>r4.
     Option.bind (digits1 r4) (\<lambda>(g2, r5).
     Option.bind (expect '' @@'' (opt_count r5)) (\<lambda>r6.
     Some (g1, g2)))))))"

section \<open>Data model (models.py)\<close>

record DiffLine =
  line_type :: string
  content :: string
  old_line_no :: "int option"
  new_line_no :: "int option"
  file_path :: string
  hunk_header :: string

record Comment =
  comment_file :: string
  line_no :: "int option"
  hunk :: string
  comment_content :: string
  comment_context :: string

text \<open>\<open>comments\<close> is a Python \<open>dict[int, Comment]\<close>: an association list with distinct
  keys, kept in insertion order, which is the order \<open>items()\<close> iterates in.\<close>

record DiffFile =
  path :: string
  lines :: "DiffLine list"
  comments :: "(nat \<times> Comment) list"

record Diff =
  files :: "DiffFile list"

definition dict_contains :: "(nat \<times> 'v) list \<Rightarrow> nat \<Rightarrow> bool" where
  "dict_contains d k = (k \<in> set (map fst d))"

definition dict_get :: "(nat \<times> 'v) list \<Rightarrow> nat \<Rightarrow> 'v option" where
  "dict_get d k = map_of d k"

text \<open>\<open>d[k] = v\<close>: an existing key keeps its place, a new key goes last.\<close>

definition dict_set :: "(nat \<times> 'v) list \<Rightarrow> nat \<Rightarrow> 'v \<Rightarrow> (nat \<times> 'v) list" where
  "dict_set d k v =
     (if dict_contains d k then map (\<lambda>(k', v'). if k' = k then (k', v) else (k', v')) d
      else d @ [(k, v)])"

section \<open>The parser (parser.py)\<close>

text \<open>The local variables of \<open>parse_diff\<close>: \<open>diff.files\<close>, \<open>current_file\<close>,
  \<open>current_hunk\<close> and the two running counters \<open>old_line_no\<close>, \<open>new_line_no\<close>.\<close>

record parse_state =
  diff_files :: "DiffFile list"
  current_file :: "DiffFile option"
  current_hunk :: string
  cur_old_line_no :: int
  cur_new_line_no :: int

definition init_state :: parse_state where
  "init_state = \<lparr>diff_files = [], current_file = None, current_hunk = [],
                 cur_old_line_no = 0, cur_new_line_no = 0\<rparr>"

definition mk_line ::
  "string \<Rightarrow> string \<Rightarrow> int option \<Rightarrow> int option \<Rightarrow> string \<Rightarrow> string \<Rightarrow> DiffLine" where
  "mk_line t c ol nl p h =
     \<lparr>line_type = t, content = c, old_line_no = ol, new_line_no = nl,
      file_path = p, hunk_header = h\<rparr>"

definition append_line :: "DiffFile \<Rightarrow> DiffLine \<Rightarrow> DiffFile" where
  "append_line f l = f\<lparr>lines := lines f @ [l]\<rparr>"

text \<open>\<open>diff.files.append(current_file)\<close> under \<open>if current_file\<close>.\<close>

definition close_file :: "parse_state \<Rightarrow> DiffFile list" where
  "close_file st =
     (case current_file st of None \<Rightarrow> diff_files st | Some f \<Rightarrow> diff_files st @ [f])"

text \<open>Lines 46 to 50: the counters and \<open>current_hunk\<close> on a line that starts with \<open>@@\<close>.\<close>

definition hunk_update :: "parse_state \<Rightarrow> string \<Rightarrow> error + parse_state" where
  "hunk_update st line =
     (case hunk_re_match line of
        None \<Rightarrow> Inr st
      | Some (g1, g2) \<Rightarrow>
          bind_err (py_int g1) (\<lambda>a.
          bind_err (py_int g2) (\<lambda>b.
          bind_err (if contains ''@@'' line
                    then bind_err (getitem (split line ''@@'') 1) (\<lambda>h. Inr (strip h))
                    else Inr line) (\<lambda>h.
          Inr (st\<lparr>cur_old_line_no := a, cur_new_line_no := b, current_hunk := h\<rparr>)))))"

text \<open>Lines 63 to 97: a non-empty line while a file is open.\<close>

definition content_line :: "parse_state \<Rightarrow> DiffFile \<Rightarrow> string \<Rightarrow> parse_state" where
  "content_line st f line =
     (if startswith line ''+'' then
        st\<lparr>current_file := Some (append_line f
              (mk_line ''+'' (drop 1 line) None (Some (cur_new_line_no st))
                 (path f) (current_hunk st))),
           cur_new_line_no := cur_new_line_no st + 1\<rparr>
      else if startswith line ''-'' then
        st\<lparr>current_file := Some (append_line f
              (mk_line ''-'' (drop 1 line) (Some (cur_old_line_no st)) None
                 (path f) (current_hunk st))),
           cur_old_line_no := cur_old_line_no st + 1\<rparr>
      else if startswith line '' '' then
        st\<lparr>current_file := Some (append_line f
              (mk_line '' '' (drop 1 line) (Some (cur_old_line_no st))
                 (Some (cur_new_line_no st)) (path f) (current_hunk st))),
           cur_old_line_no := cur_old_line_no st + 1,
           cur_new_line_no := cur_new_line_no st + 1\<rparr>
      else st)"

text \<open>Lines 39 to 41: the path named by a line that starts with \<open>+++\<close>.\<close>

definition new_path :: "string \<Rightarrow> string" where
  "new_path line =
     (let p = strip (drop 4 line) in if startswith p ''b/'' then drop 2 p else p)"

text \<open>The two running counters of a state, as a pair.\<close>

definition counters :: "parse_state \<Rightarrow> int \<times> int" where
  "counters st = (cur_old_line_no st, cur_new_line_no st)"

text \<open>The body of the loop over the lines, one \<open>if\<close>/\<open>elif\<close> branch after the other.\<close>

definition parse_line :: "parse_state \<Rightarrow> string \<Rightarrow> error + parse_state" where
  "parse_line st line =
     (if startswith line ''diff --git'' then
        Inr (st\<lparr>diff_files := close_file st, current_file := None\<rparr>)
      else if startswith line ''+++'' then
        Inr (st\<lparr>current_file := Some \<lparr>path = new_path line, lines = [], comments = []\<rparr>\<rparr>)
      else if startswith line ''@@'' then
        bind_err (hunk_update st line) (\<lambda>st1.
          Inr (case current_file st1 of
                 None \<Rightarrow> st1
               | Some f \<Rightarrow>
                   st1\<lparr>current_file := Some (append_line f
                         (mk_line ''@'' line None None (path f) line))\<rparr>))
      else (case current_file st of
              Some f \<Rightarrow> if line \<noteq> [] then Inr (content_line st f line) else Inr st
            | None \<Rightarrow> Inr st))"

fun parse_lines :: "parse_state \<Rightarrow> string list \<Rightarrow> error + parse_state" where
  "parse_lines st [] = Inr st"
| "parse_lines st (l # ls) =
     bind_err (parse_line st l) (\<lambda>st'. parse_lines st' ls)"

definition parse_diff :: "string \<Rightarrow> error + Diff" where
  "parse_diff diff_text =
     bind_err (parse_lines init_state (split diff_text [CHR 0x0A]))
       (\<lambda>st. Inr \<lparr>files = close_file st\<rparr>)"

section \<open>The feedback record (output.py)\<close>

datatype json = JStr string | JInt int | JNull

text \<open>The dictionary appended for one comment, with its keys in the order written.\<close>

definition comment_entry :: "Comment \<Rightarrow> (string \<times> json) list" where
  "comment_entry c =
     [(''file'', JStr (comment_file c)),
      (''line'', (case line_no c of None \<Rightarrow> JNull | Some n \<Rightarrow> JInt n)),
      (''hunk'', JStr (hunk c)),
      (''content'', JStr (comment_content c)),
      (''context'', JStr (comment_context c))]"

text \<open>The two nested loops of \<open>generate_feedback\<close>: over \<open>diff.files\<close>, then over
  \<open>file.comments.items()\<close>, appending to the list \<open>comments\<close>.\<close>

definition file_loop :: "(string \<times> json) list list \<Rightarrow> DiffFile \<Rightarrow> (string \<times> json) list list" where
  "file_loop acc f = foldl (\<lambda>acc (line_idx, c). acc @ [comment_entry c]) acc (comments f)"

definition feedback_comments :: "Diff \<Rightarrow> (string \<times> json) list list" where
  "feedback_comments d = foldl file_loop [] (files d)"

record feedback =
  timestamp :: string
  diff_command :: string
  feedback_list :: "(string \<times> json) list list"

text \<open>The record that is written to the output file; the clock reading is a parameter.\<close>

definition generate_feedback :: "string \<Rightarrow> Diff \<Rightarrow> feedback" where
  "generate_feedback now d =
     \<lparr>timestamp = now, diff_command = ''git diff HEAD'', feedback_list = feedback_comments d\<rparr>"

section \<open>The annotation state of the application (app.py)\<close>

text \<open>The fields of \<open>DiffReviewApp\<close> that the comment operations read and write.
  \<open>line_to_file\<close> is a dictionary whose keys are \<open>0, 1, ...\<close> in order, each written
  as \<open>len(all_lines)\<close> just before the append: a list, with \<open>KeyError\<close> past its end.\<close>

record App =
  diff :: Diff
  editing :: bool
  edit_line_idx :: "nat option"
  all_lines :: "DiffLine list"
  line_to_file :: "nat list"

definition init_app :: "Diff \<Rightarrow> App" where
  "init_app d =
     \<lparr>diff = d, editing = False, edit_line_idx = None,
      all_lines = concat (map lines (files d)),
      line_to_file =
        concat (map (\<lambda>(file_idx, f). replicate (length (lines f)) file_idx)
                    (enumerate 0 (files d)))\<rparr>"

text \<open>The index \<open>line_idx\<close> that \<open>on_mount\<close> gives the widget of line \<open>pos\<close> of file
  \<open>file_idx\<close>: the number of lines mounted before it.\<close>

definition widget_index :: "Diff \<Rightarrow> nat \<Rightarrow> nat \<Rightarrow> nat" where
  "widget_index d file_idx pos = length (concat (map lines (take file_idx (files d)))) + pos"

text \<open>\<open>action_create_comment\<close> on a focused line widget.\<close>

definition action_create_comment :: "App \<Rightarrow> nat \<Rightarrow> App" where
  "action_create_comment app index =
     (if editing app then app else app\<lparr>edit_line_idx := Some index, editing := True\<rparr>)"

definition action_cancel_edit :: "App \<Rightarrow> App" where
  "action_cancel_edit app =
     (if editing app then app\<lparr>editing := False, edit_line_idx := None\<rparr> else app)"

text \<open>The scan for the line's index within its file: the first line equal to it, and
  \<open>0\<close> when there is none.\<close>

fun first_index :: "'a list \<Rightarrow> 'a \<Rightarrow> nat option" where
  "first_index [] l = None"
| "first_index (x # xs) l = (if x = l then Some 0 else map_option Suc (first_index xs l))"

definition file_line_idx :: "DiffLine list \<Rightarrow> DiffLine \<Rightarrow> nat" where
  "file_line_idx ls l = (case first_index ls l of None \<Rightarrow> 0 | Some i \<Rightarrow> i)"

text \<open>\<open>a or b\<close> on optional integers: \<open>None\<close> and \<open>0\<close> are both false.\<close>

definition py_or :: "int option \<Rightarrow> int option \<Rightarrow> int option" where
  "py_or a b = (case a of None \<Rightarrow> b | Some n \<Rightarrow> if n = 0 then b else Some n)"

definition mk_comment :: "DiffFile \<Rightarrow> DiffLine \<Rightarrow> string \<Rightarrow> Comment" where
  "mk_comment f line comment_text =
     \<lparr>comment_file = path f,
      line_no = py_or (new_line_no line) (old_line_no line),
      hunk = hunk_header line,
      comment_content = comment_text,
      comment_context = content line\<rparr>"

definition on_input_submitted :: "App \<Rightarrow> string \<Rightarrow> error + App" where
  "on_input_submitted app v =
     (case edit_line_idx app of
        None \<Rightarrow> Inr app
      | Some idx \<Rightarrow>
          if \<not> editing app then Inr app
          else if strip v = [] then Inr (action_cancel_edit app)
          else
            bind_err (if idx < length (line_to_file app) then Inr (line_to_file app ! idx)
                      else Inl KeyError) (\<lambda>file_idx.
            bind_err (getitem (files (diff app)) file_idx) (\<lambda>f.
            bind_err (getitem (all_lines app) idx) (\<lambda>line.
            Inr (app\<lparr>diff := \<lparr>files = (files (diff app))
                         [file_idx := f\<lparr>comments :=
                            dict_set (comments f) (file_line_idx (lines f) line)
                              (mk_comment f line (strip v))\<rparr>]\<rparr>,
                     editing := False, edit_line_idx := None\<rparr>)))))"

text \<open>The lookup \<open>file.comments[file_line_idx]\<close> under \<open>file_line_idx in file.comments\<close>,
  as the view does it for every line of every file.\<close>

definition get_comment :: "Diff \<Rightarrow> nat \<Rightarrow> nat \<Rightarrow> Comment option" where
  "get_comment d file_idx pos =
     (if file_idx < length (files d) then dict_get (comments (files d ! file_idx)) pos
      else None)"

section \<open>Basic facts\<close>

lemma bind_err_Inr [simp]: "bind_err (Inr x) f = f x"
  by (simp add: bind_err_def)

lemma bind_err_Inl [simp]: "bind_err (Inl e) f = Inl e"
  by (simp add: bind_err_def)

lemma bind_err_eq_Inr: "bind_err m f = Inr y \<longleftrightarrow> (\<exists>x. m = Inr x \<and> f x = Inr y)"
  by (cases m) simp_all

lemma split_aux_nonempty: "split_aux sep acc s \<noteq> []"
  by (induction sep acc s rule: split_aux.induct) simp_all

lemma split_marker_length:
  assumes "startswith line ''@@''"
  shows "1 < length (split line ''@@'')"
proof -
  from assms obtain rest where l: "line = CHR ''@'' # CHR ''@'' # rest"
    by (cases line; cases "tl line") (auto simp: startswith_def)
  have "split_aux ''@@'' [] rest \<noteq> []"
    by (rule split_aux_nonempty)
  then have "0 < length (split_aux ''@@'' [] rest)"
    by simp
  with l show ?thesis
    by (simp add: split_def startswith_def)
qed

lemma contains_prefix: "sub \<noteq> [] \<Longrightarrow> startswith s sub \<Longrightarrow> contains sub s"
  by (cases s) (simp_all add: startswith_def)

lemma startswith_char: "line \<noteq> [] \<Longrightarrow> startswith line [c] = (hd line = c)"
  by (cases line) (simp_all add: startswith_def)

lemma digits1_Some:
  assumes "digits1 s = Some (g, r)"
  shows "g \<noteq> [] \<and> list_all isdigit g"
proof -
  from assms have g: "g = takeWhile isdigit s" and "g \<noteq> []"
    by (auto simp: digits1_def split: if_splits)
  moreover have "list_all isdigit (takeWhile isdigit s)"
    by (auto simp: list_all_iff dest: set_takeWhileD)
  ultimately show ?thesis by simp
qed

text \<open>What a match of the pattern says about the line and the two groups.\<close>

lemma hunk_re_match_Some:
  assumes "hunk_re_match line = Some (g1, g2)"
  shows "startswith line ''@@ -''"
    and "g1 \<noteq> []" and "list_all isdigit g1" and "g2 \<noteq> []" and "list_all isdigit g2"
proof -
  from assms obtain r1 r2 r4 r5 where e: "expect ''@@ -'' line = Some r1"
    and d1: "digits1 r1 = Some (g1, r2)" and d2: "digits1 r4 = Some (g2, r5)"
    by (auto simp: hunk_re_match_def bind_eq_Some_conv)
  from e show "startswith line ''@@ -''"
    by (simp add: expect_def split: if_splits)
  from digits1_Some [OF d1] show "g1 \<noteq> []" and "list_all isdigit g1" by simp_all
  from digits1_Some [OF d2] show "g2 \<noteq> []" and "list_all isdigit g2" by simp_all
qed

lemma startswith_hunk_prefix:
  assumes "startswith line ''@@ -''"
  shows "startswith line ''@@''" and "\<not> startswith line ''diff --git''"
    and "\<not> startswith line ''+++''"
proof -
  from assms obtain rest where "line = CHR ''@'' # CHR ''@'' # rest"
    by (cases line; cases "tl line") (auto simp: startswith_def)
  then show "startswith line ''@@''" and "\<not> startswith line ''diff --git''"
    and "\<not> startswith line ''+++''"
    by (simp_all add: startswith_def)
qed

lemma py_int_digits:
  assumes "g \<noteq> []" and "list_all isdigit g"
  shows "py_int g =
     (if int_max_str_digits < length g then Inl ValueError else Inr (digits_value g))"
  using assms by (simp add: py_int_def)

text \<open>On a line that starts with \<open>@@\<close> the index \<open>[1]\<close> of the split exists, so the only
  exception of \<open>hunk_update\<close> is the \<open>ValueError\<close> of \<open>int\<close>.\<close>

lemma hunk_update_eq:
  assumes "startswith line ''@@''"
  shows "hunk_update st line =
     (case hunk_re_match line of
        None \<Rightarrow> Inr st
      | Some (g1, g2) \<Rightarrow>
          if int_max_str_digits < length g1 \<or> int_max_str_digits < length g2
          then Inl ValueError
          else Inr (st\<lparr>cur_old_line_no := digits_value g1,
                       cur_new_line_no := digits_value g2,
                       current_hunk := strip (split line ''@@'' ! 1)\<rparr>))"
proof (cases "hunk_re_match line")
  case None
  then show ?thesis by (simp add: hunk_update_def)
next
  case (Some g)
  obtain g1 g2 where g: "g = (g1, g2)" by (cases g)
  note m = hunk_re_match_Some [OF Some [unfolded g]]
  have c: "contains ''@@'' line"
    using assms by (simp add: contains_prefix)
  have i: "getitem (split line ''@@'') 1 = Inr (split line ''@@'' ! 1)"
    using split_marker_length [OF assms] by (simp add: getitem_def)
  show ?thesis
    using Some g c i py_int_digits [OF m(2,3)] py_int_digits [OF m(4,5)]
    by (simp add: hunk_update_def)
qed

lemma hunk_update_keeps_files:
  assumes "hunk_update st line = Inr st1"
  shows "diff_files st1 = diff_files st" and "current_file st1 = current_file st"
  using assms
  by (auto simp: hunk_update_def bind_err_eq_Inr split: option.splits if_splits)

subsection \<open>The branches of the loop body\<close>

lemma parse_line_git:
  assumes "startswith line ''diff --git''"
  shows "parse_line st line = Inr (st\<lparr>diff_files := close_file st, current_file := None\<rparr>)"
  using assms by (simp add: parse_line_def)

lemma parse_line_path:
  assumes "startswith line ''+++''"
  shows "parse_line st line =
     Inr (st\<lparr>current_file := Some \<lparr>path = new_path line, lines = [], comments = []\<rparr>\<rparr>)"
proof -
  from assms have "\<not> startswith line ''diff --git''"
    by (cases line) (auto simp: startswith_def)
  with assms show ?thesis by (simp add: parse_line_def)
qed

lemma parse_line_hunk:
  assumes "startswith line ''@@''"
  shows "parse_line st line =
     bind_err (hunk_update st line) (\<lambda>st1.
       Inr (case current_file st1 of
              None \<Rightarrow> st1
            | Some f \<Rightarrow>
                st1\<lparr>current_file := Some (append_line f
                      (mk_line ''@'' line None None (path f) line))\<rparr>))"
proof -
  from assms have "\<not> startswith line ''diff --git''" and "\<not> startswith line ''+++''"
    by (cases line; auto simp: startswith_def)+
  with assms show ?thesis by (simp add: parse_line_def)
qed

lemma parse_line_content:
  assumes "current_file st = Some f" and "line \<noteq> []"
    and "\<not> startswith line ''diff --git''" and "\<not> startswith line ''+++''"
    and "\<not> startswith line ''@@''"
  shows "parse_line st line = Inr (content_line st f line)"
  using assms by (simp add: parse_line_def)

lemma parse_line_idle:
  assumes "current_file st = None \<or> line = []"
    and "\<not> startswith line ''diff --git''" and "\<not> startswith line ''+++''"
    and "\<not> startswith line ''@@''"
  shows "parse_line st line = Inr st"
  using assms by (auto simp: parse_line_def split: option.splits)

section \<open>The scenario of the specification\<close>

text \<open>
  Claim C6. Parsing the text of the scenario gives one file with path \<open>x\<close> whose lines
  are, in this order, the hunk header, the context line \<open>line1\<close> (old 1, new 1), the
  removed line \<open>line2\<close> (old 2), and the added lines \<open>line2b\<close> (new 2) and
  \<open>line3\<close> (new 3).
\<close>

theorem parse_diff_scenario:
  "parse_diff ''diff --git a/x b/x\<newline>--- a/x\<newline>+++ b/x\<newline>@@ -1,2 +1,3 @@\<newline> line1\<newline>-line2\<newline>+line2b\<newline>+line3\<newline>'' =
     Inr \<lparr>files = [\<lparr>path = ''x'',
       lines =
         [\<lparr>line_type = ''@'', content = ''@@ -1,2 +1,3 @@'', old_line_no = None,
            new_line_no = None, file_path = ''x'', hunk_header = ''@@ -1,2 +1,3 @@''\<rparr>,
          \<lparr>line_type = '' '', content = ''line1'', old_line_no = Some 1,
            new_line_no = Some 1, file_path = ''x'', hunk_header = ''-1,2 +1,3''\<rparr>,
          \<lparr>line_type = ''-'', content = ''line2'', old_line_no = Some 2,
            new_line_no = None, file_path = ''x'', hunk_header = ''-1,2 +1,3''\<rparr>,
          \<lparr>line_type = ''+'', content = ''line2b'', old_line_no = None,
            new_line_no = Some 2, file_path = ''x'', hunk_header = ''-1,2 +1,3''\<rparr>,
          \<lparr>line_type = ''+'', content = ''line3'', old_line_no = None,
            new_line_no = Some 3, file_path = ''x'', hunk_header = ''-1,2 +1,3''\<rparr>],
       comments = []\<rparr>]\<rparr>"
  by code_simp

section \<open>Classification of content lines\<close>

text \<open>
  Claim C3, as the code has it. While a file is open, a non-empty line that starts with
  none of \<open>diff --git\<close>, \<open>+++\<close> and \<open>@@\<close> is classified by its first character: \<open>+\<close>
  appends an added record with the new-line counter and increments that counter, \<open>-\<close>
  appends a removed record with the old-line counter and increments that counter, a
  space appends a context record with both counters and increments both; the record's
  content is the line without its first character. A line that starts with any other
  character appends nothing and leaves the state as it is.
\<close>

theorem content_line_classification:
  assumes "current_file st = Some f" and "line \<noteq> []"
    and "\<not> startswith line ''diff --git''" and "\<not> startswith line ''+++''"
    and "\<not> startswith line ''@@''"
  shows "parse_line st line = Inr
     (if hd line = CHR ''+'' then
        st\<lparr>current_file := Some (f\<lparr>lines := lines f @
              [\<lparr>line_type = ''+'', content = tl line, old_line_no = None,
                new_line_no = Some (cur_new_line_no st), file_path = path f,
                hunk_header = current_hunk st\<rparr>]\<rparr>),
           cur_new_line_no := cur_new_line_no st + 1\<rparr>
      else if hd line = CHR ''-'' then
        st\<lparr>current_file := Some (f\<lparr>lines := lines f @
              [\<lparr>line_type = ''-'', content = tl line,
                old_line_no = Some (cur_old_line_no st), new_line_no = None,
                file_path = path f, hunk_header = current_hunk st\<rparr>]\<rparr>),
           cur_old_line_no := cur_old_line_no st + 1\<rparr>
      else if hd line = CHR '' '' then
        st\<lparr>current_file := Some (f\<lparr>lines := lines f @
              [\<lparr>line_type = '' '', content = tl line,
                old_line_no = Some (cur_old_line_no st),
                new_line_no = Some (cur_new_line_no st), file_path = path f,
                hunk_header = current_hunk st\<rparr>]\<rparr>),
           cur_old_line_no := cur_old_line_no st + 1,
           cur_new_line_no := cur_new_line_no st + 1\<rparr>
      else st)"
proof -
  have "parse_line st line = Inr (content_line st f line)"
    using assms by (rule parse_line_content)
  moreover have "drop 1 line = tl line"
    by (simp add: drop_Suc)
  ultimately show ?thesis
    using assms(2)
    by (simp add: content_line_def append_line_def mk_line_def startswith_char)
qed

theorem content_line_classification_witness:
  "parse_line
     \<lparr>diff_files = [], current_file = Some \<lparr>path = ''x'', lines = [], comments = []\<rparr>,
      current_hunk = ''-7 +9'', cur_old_line_no = 7, cur_new_line_no = 9\<rparr> '' ctx'' =
   Inr \<lparr>diff_files = [],
        current_file = Some \<lparr>path = ''x'',
          lines = [\<lparr>line_type = '' '', content = ''ctx'', old_line_no = Some 7,
                    new_line_no = Some 9, file_path = ''x'', hunk_header = ''-7 +9''\<rparr>],
          comments = []\<rparr>,
        current_hunk = ''-7 +9'', cur_old_line_no = 8, cur_new_line_no = 10\<rparr>"
  using content_line_classification
    [of "\<lparr>diff_files = [], current_file = Some \<lparr>path = ''x'', lines = [], comments = []\<rparr>,
         current_hunk = ''-7 +9'', cur_old_line_no = 7, cur_new_line_no = 9\<rparr>"
        "\<lparr>path = ''x'', lines = [], comments = []\<rparr>" "'' ctx''"]
  by (simp add: startswith_def)

text \<open>The line \<open>\ No newline at end of file\<close> inside an open file starts with neither
  \<open>+\<close>, \<open>-\<close> nor a space: no context record is made for it and the counters stay, so the
  added line after it still has new-line number 1.\<close>

theorem other_marker_line_dropped:
  "parse_diff (''+++ b/x\<newline>@@ -1 +1 @@\<newline>-a\<newline>'' @ CHR 0x5C #
               '' No newline at end of file\<newline>+b'') =
     Inr \<lparr>files = [\<lparr>path = ''x'',
       lines =
         [\<lparr>line_type = ''@'', content = ''@@ -1 +1 @@'', old_line_no = None,
            new_line_no = None, file_path = ''x'', hunk_header = ''@@ -1 +1 @@''\<rparr>,
          \<lparr>line_type = ''-'', content = ''a'', old_line_no = Some 1,
            new_line_no = None, file_path = ''x'', hunk_header = ''-1 +1''\<rparr>,
          \<lparr>line_type = ''+'', content = ''b'', old_line_no = None,
            new_line_no = Some 1, file_path = ''x'', hunk_header = ''-1 +1''\<rparr>],
       comments = []\<rparr>]\<rparr>"
  by code_simp

section \<open>The running line counters\<close>

lemma parse_lines_append:
  "parse_lines st (xs @ ys) = bind_err (parse_lines st xs) (\<lambda>st'. parse_lines st' ys)"
proof (induction xs arbitrary: st)
  case Nil
  show ?case by simp
next
  case (Cons x xs)
  show ?case
  proof (cases "parse_line st x")
    case (Inl e)
    then show ?thesis by simp
  next
    case (Inr st1)
    with Cons show ?thesis by simp
  qed
qed

lemma parse_line_counters:
  assumes "parse_line st line = Inr st'"
  shows "counters st' =
     (if startswith line ''diff --git'' \<or> startswith line ''+++'' then counters st
      else if startswith line ''@@'' then
        (case hunk_re_match line of
           None \<Rightarrow> counters st
         | Some (g1, g2) \<Rightarrow> (digits_value g1, digits_value g2))
      else if current_file st = None \<or> line = [] then counters st
      else if hd line = CHR ''+'' then (cur_old_line_no st, cur_new_line_no st + 1)
      else if hd line = CHR ''-'' then (cur_old_line_no st + 1, cur_new_line_no st)
      else if hd line = CHR '' '' then (cur_old_line_no st + 1, cur_new_line_no st + 1)
      else counters st)"
proof -
  consider (git) "startswith line ''diff --git''"
    | (path) "\<not> startswith line ''diff --git''" "startswith line ''+++''"
    | (hunk) "\<not> startswith line ''diff --git''" "\<not> startswith line ''+++''"
        "startswith line ''@@''"
    | (idle) "\<not> startswith line ''diff --git''" "\<not> startswith line ''+++''"
        "\<not> startswith line ''@@''" "current_file st = None \<or> line = []"
    | (body) "\<not> startswith line ''diff --git''" "\<not> startswith line ''+++''"
        "\<not> startswith line ''@@''" "current_file st \<noteq> None" "line \<noteq> []"
    by blast
  then show ?thesis
  proof cases
    case git
    with assms show ?thesis by (auto simp: parse_line_git counters_def)
  next
    case path
    with assms show ?thesis by (auto simp: parse_line_path counters_def)
  next
    case hunk
    from assms hunk obtain st1 where h: "hunk_update st line = Inr st1"
      and s: "st' = (case current_file st1 of None \<Rightarrow> st1
          | Some f \<Rightarrow> st1\<lparr>current_file := Some (append_line f
               (mk_line ''@'' line None None (path f) line))\<rparr>)"
      by (auto simp: parse_line_hunk bind_err_eq_Inr)
    from s have "counters st' = counters st1"
      by (simp add: counters_def split: option.splits)
    moreover from h hunk(3) have "counters st1 =
        (case hunk_re_match line of None \<Rightarrow> counters st
         | Some (g1, g2) \<Rightarrow> (digits_value g1, digits_value g2))"
      by (auto simp: hunk_update_eq counters_def split: option.splits if_splits)
    ultimately show ?thesis using hunk by simp
  next
    case idle
    with assms parse_line_idle [OF idle(4) idle(1,2,3), of ] show ?thesis
      by auto
  next
    case body
    then obtain f where f: "current_file st = Some f" by auto
    from parse_line_content [OF f body(5) body(1,2,3)] assms body f
    show ?thesis by (auto simp: counters_def content_line_def startswith_char)
  qed
qed

text \<open>Between two file sections: after a \<open>diff --git\<close> line no file is open, and it
  stays so until the next \<open>+++\<close> line.\<close>

lemma parse_lines_no_file:
  assumes "current_file st = None"
    and "\<forall>l\<in>set hs. hunk_re_match l = None \<and> \<not> startswith l ''+++''"
    and "parse_lines st hs = Inr st'"
  shows "counters st' = counters st \<and> current_file st' = None"
  using assms
proof (induction hs arbitrary: st)
  case Nil
  then show ?case by simp
next
  case (Cons l hs)
  from Cons.prems(3) obtain st1 where 1: "parse_line st l = Inr st1"
    and 2: "parse_lines st1 hs = Inr st'"
    by (auto simp: bind_err_eq_Inr)
  from Cons.prems(2) have m: "hunk_re_match l = None" and p: "\<not> startswith l ''+++''"
    by simp_all
  from parse_line_counters [OF 1] m p Cons.prems(1) have c: "counters st1 = counters st"
    by (simp split: if_splits)
  have n: "current_file st1 = None"
  proof (cases "startswith l ''diff --git''")
    case True
    with 1 show ?thesis by (auto simp: parse_line_git)
  next
    case False
    show ?thesis
    proof (cases "startswith l ''@@''")
      case True
      with 1 m Cons.prems(1) show ?thesis
        by (auto simp: parse_line_hunk hunk_update_eq)
    next
      case False
      with 1 p \<open>\<not> startswith l ''diff --git''\<close> Cons.prems(1) show ?thesis
        by (auto simp: parse_line_idle)
    qed
  qed
  from Cons.IH [OF n _ 2] Cons.prems(2) c show ?case by simp
qed

lemma parse_lines_unmatched_hunks:
  assumes "\<forall>l\<in>set qs. startswith l ''@@'' \<and> hunk_re_match l = None"
    and "parse_lines st qs = Inr st'"
  shows "counters st' = counters st"
  using assms
proof (induction qs arbitrary: st)
  case Nil
  then show ?case by simp
next
  case (Cons l qs)
  from Cons.prems(2) obtain st1 where 1: "parse_line st l = Inr st1"
    and 2: "parse_lines st1 qs = Inr st'"
    by (auto simp: bind_err_eq_Inr)
  from parse_line_counters [OF 1] Cons.prems(1) have "counters st1 = counters st"
    by (simp split: if_splits)
  with Cons.IH [OF _ 2] Cons.prems(1) show ?case by simp
qed

text \<open>
  Claim C10. One step of the loop changes the pair of counters only in these ways: a
  line that starts with \<open>@@\<close> and matches the pattern sets them to the two numbers it
  names, and while a file is open a \<open>+\<close> line adds one to the new counter, a \<open>-\<close>
  line one to the old counter and a space line one to both; every other line,
  \<open>diff --git\<close> and \<open>+++\<close> among them, leaves them as they are. Hence across a file
  boundary (a \<open>diff --git\<close> line, header lines without a matching hunk line, the
  \<open>+++\<close> line, and hunk lines that fail to match) the new file section starts with
  the counters the previous one left.
\<close>

theorem counters_change_only_at_hunks_and_content:
  assumes "parse_line st line = Inr st1"
    and "startswith d ''diff --git''"
    and "\<forall>l\<in>set hs. hunk_re_match l = None \<and> \<not> startswith l ''+++''"
    and "startswith p ''+++''"
    and "\<forall>l\<in>set qs. startswith l ''@@'' \<and> hunk_re_match l = None"
    and "parse_lines st (d # hs @ p # qs) = Inr st2"
  shows "counters st1 =
     (if startswith line ''diff --git'' \<or> startswith line ''+++'' then counters st
      else if startswith line ''@@'' then
        (case hunk_re_match line of
           None \<Rightarrow> counters st
         | Some (g1, g2) \<Rightarrow> (digits_value g1, digits_value g2))
      else if current_file st = None \<or> line = [] then counters st
      else if hd line = CHR ''+'' then (cur_old_line_no st, cur_new_line_no st + 1)
      else if hd line = CHR ''-'' then (cur_old_line_no st + 1, cur_new_line_no st)
      else if hd line = CHR '' '' then (cur_old_line_no st + 1, cur_new_line_no st + 1)
      else counters st)
    \<and> counters st2 = counters st"
proof
  from assms(1) show "counters st1 =
     (if startswith line ''diff --git'' \<or> startswith line ''+++'' then counters st
      else if startswith line ''@@'' then
        (case hunk_re_match line of
           None \<Rightarrow> counters st
         | Some (g1, g2) \<Rightarrow> (digits_value g1, digits_value g2))
      else if current_file st = None \<or> line = [] then counters st
      else if hd line = CHR ''+'' then (cur_old_line_no st, cur_new_line_no st + 1)
      else if hd line = CHR ''-'' then (cur_old_line_no st + 1, cur_new_line_no st)
      else if hd line = CHR '' '' then (cur_old_line_no st + 1, cur_new_line_no st + 1)
      else counters st)"
    by (rule parse_line_counters)
next
  let ?a = "st\<lparr>diff_files := close_file st, current_file := None\<rparr>"
  from assms(6) assms(2) have "parse_lines ?a (hs @ p # qs) = Inr st2"
    by (simp add: parse_line_git)
  then obtain b where b: "parse_lines ?a hs = Inr b"
    and r: "parse_lines b (p # qs) = Inr st2"
    by (auto simp: parse_lines_append bind_err_eq_Inr)
  have "counters b = counters ?a"
    using parse_lines_no_file [OF _ assms(3) b] by simp
  then have cb: "counters b = counters st"
    by (simp add: counters_def)
  let ?c = "b\<lparr>current_file := Some \<lparr>path = new_path p, lines = [], comments = []\<rparr>\<rparr>"
  from r assms(4) have "parse_lines ?c qs = Inr st2"
    by (simp add: parse_line_path)
  from parse_lines_unmatched_hunks [OF assms(5) this] have "counters st2 = counters ?c" .
  with cb show "counters st2 = counters st"
    by (simp add: counters_def)
qed

theorem counters_change_only_at_hunks_and_content_witness:
  "counters
     \<lparr>diff_files = [],
      current_file = Some \<lparr>path = ''a'',
        lines = [\<lparr>line_type = ''+'', content = ''n'', old_line_no = None,
                  new_line_no = Some 4, file_path = ''a'', hunk_header = ''-3 +4''\<rparr>],
        comments = []\<rparr>,
      current_hunk = ''-3 +4'', cur_old_line_no = 3, cur_new_line_no = 5\<rparr> = (3, 5) \<and>
   counters
     \<lparr>diff_files = [\<lparr>path = ''a'', lines = [], comments = []\<rparr>],
      current_file = Some \<lparr>path = ''b'',
        lines = [\<lparr>line_type = ''@'', content = ''@@ broken @@'', old_line_no = None,
                  new_line_no = None, file_path = ''b'', hunk_header = ''@@ broken @@''\<rparr>],
        comments = []\<rparr>,
      current_hunk = ''-3 +4'', cur_old_line_no = 3, cur_new_line_no = 4\<rparr> = (3, 4)"
proof -
  let ?st = "\<lparr>diff_files = [],
      current_file = Some \<lparr>path = ''a'', lines = [], comments = []\<rparr>,
      current_hunk = ''-3 +4'', cur_old_line_no = 3, cur_new_line_no = 4\<rparr>"
  let ?st1 = "\<lparr>diff_files = [],
      current_file = Some \<lparr>path = ''a'',
        lines = [\<lparr>line_type = ''+'', content = ''n'', old_line_no = None,
                  new_line_no = Some 4, file_path = ''a'', hunk_header = ''-3 +4''\<rparr>],
        comments = []\<rparr>,
      current_hunk = ''-3 +4'', cur_old_line_no = 3, cur_new_line_no = 5\<rparr>"
  let ?st2 = "\<lparr>diff_files = [\<lparr>path = ''a'', lines = [], comments = []\<rparr>],
      current_file = Some \<lparr>path = ''b'',
        lines = [\<lparr>line_type = ''@'', content = ''@@ broken @@'', old_line_no = None,
                  new_line_no = None, file_path = ''b'', hunk_header = ''@@ broken @@''\<rparr>],
        comments = []\<rparr>,
      current_hunk = ''-3 +4'', cur_old_line_no = 3, cur_new_line_no = 4\<rparr>"
  have 1: "parse_line ?st ''+n'' = Inr ?st1"
    by code_simp
  have 2: "startswith ''diff --git a/b b/b'' ''diff --git''"
    by code_simp
  have 3: "\<forall>l\<in>set [''index 1..2'', ''--- a/b''].
             hunk_re_match l = None \<and> \<not> startswith l ''+++''"
    by code_simp
  have 4: "startswith ''+++ b/b'' ''+++''"
    by code_simp
  have 5: "\<forall>l\<in>set [''@@ broken @@'']. startswith l ''@@'' \<and> hunk_re_match l = None"
    by code_simp
  have 6: "parse_lines ?st
      (''diff --git a/b b/b'' # [''index 1..2'', ''--- a/b''] @ ''+++ b/b'' # [''@@ broken @@'']) =
      Inr ?st2"
    by code_simp
  from counters_change_only_at_hunks_and_content [OF 1 2 3 4 5 6]
  show ?thesis
    by (simp add: counters_def startswith_def)
qed

section \<open>Files opened and closed\<close>

lemma bind_err_return [simp]: "bind_err m Inr = m"
  by (cases m) simp_all

lemma content_line_keeps:
  "diff_files (content_line st f line) = diff_files st"
  "current_hunk (content_line st f line) = current_hunk st"
  by (simp_all add: content_line_def)

lemma parse_line_cases:
  obtains (git) "startswith line ''diff --git''"
  | (path) "startswith line ''+++''"
  | (hunk) "startswith line ''@@''"
  | (body) f where "current_file st = Some f" "line \<noteq> []"
      "parse_line st line = Inr (content_line st f line)"
  | (idle) "parse_line st line = Inr st"
proof (cases "startswith line ''diff --git'' \<or> startswith line ''+++'' \<or> startswith line ''@@''")
  case True
  then show ?thesis using git path hunk by blast
next
  case False
  show ?thesis
  proof (cases "current_file st = None \<or> line = []")
    case True
    from parse_line_idle [OF True] False idle show ?thesis by blast
  next
    case False
    then obtain f where f: "current_file st = Some f" and l: "line \<noteq> []" by auto
    from parse_line_content [OF f l] \<open>\<not> (startswith line ''diff --git'' \<or>
      startswith line ''+++'' \<or> startswith line ''@@'')\<close> body [OF f l]
    show ?thesis by blast
  qed
qed

lemma parse_line_keeps_diff_files:
  assumes "\<not> startswith line ''diff --git''" and "parse_line st line = Inr st1"
  shows "diff_files st1 = diff_files st"
proof (cases rule: parse_line_cases [where line = line and st = st])
  case git
  with assms(1) show ?thesis by simp
next
  case path
  with assms(2) show ?thesis by (auto simp: parse_line_path)
next
  case hunk
  with assms(2) obtain s where "hunk_update st line = Inr s"
    and "diff_files st1 = diff_files s"
    by (auto simp: parse_line_hunk bind_err_eq_Inr split: option.splits)
  with hunk_update_keeps_files(1) [of st line s] show ?thesis by simp
next
  case (body f)
  with assms(2) show ?thesis by (auto simp: content_line_keeps)
next
  case idle
  with assms(2) show ?thesis by simp
qed

lemma parse_lines_keeps_diff_files:
  assumes "\<forall>l\<in>set ls. \<not> startswith l ''diff --git''" and "parse_lines st ls = Inr st'"
  shows "diff_files st' = diff_files st"
  using assms
proof (induction ls arbitrary: st)
  case Nil
  then show ?case by simp
next
  case (Cons l ls)
  from Cons.prems(2) obtain st1 where 1: "parse_line st l = Inr st1"
    and 2: "parse_lines st1 ls = Inr st'"
    by (auto simp: bind_err_eq_Inr)
  from Cons.prems(1) have "diff_files st1 = diff_files st"
    by (intro parse_line_keeps_diff_files [OF _ 1]) simp
  with Cons.IH [OF _ 2] Cons.prems(1) show ?case by simp
qed

text \<open>
  Claim C9. The list of finished files grows only at a \<open>diff --git\<close> line (and once
  more at the end of the input, by \<open>close_file\<close> in \<open>parse_diff\<close>). So when a \<open>+++\<close>
  line has opened a file and a second \<open>+++\<close> line follows with no \<open>diff --git\<close> line
  between them, the finished files are still those from before the first \<open>+++\<close>
  line, and the open file is the fresh, empty file of the second one: the file of the
  first \<open>+++\<close> line and every record put into it are gone. Were the input to end
  there, the document would be the earlier files followed by that fresh file.
\<close>

theorem second_path_line_discards_open_file:
  assumes "startswith l1 ''+++''"
    and "\<forall>l\<in>set ls. \<not> startswith l ''diff --git''"
    and "startswith l2 ''+++''"
    and "parse_lines st (l1 # ls @ [l2]) = Inr st'"
  shows "diff_files st' = diff_files st \<and>
         current_file st' = Some \<lparr>path = new_path l2, lines = [], comments = []\<rparr> \<and>
         close_file st' = diff_files st @ [\<lparr>path = new_path l2, lines = [], comments = []\<rparr>]"
proof -
  from assms(4) have "parse_lines st ((l1 # ls) @ [l2]) = Inr st'"
    by simp
  then obtain a where a: "parse_lines st (l1 # ls) = Inr a"
    and b: "parse_line a l2 = Inr st'"
    unfolding parse_lines_append by (auto simp: bind_err_eq_Inr)
  from assms(1) have "\<not> startswith l1 ''diff --git''"
    by (cases l1) (auto simp: startswith_def)
  with assms(2) have "\<forall>l\<in>set (l1 # ls). \<not> startswith l ''diff --git''"
    by simp
  from parse_lines_keeps_diff_files [OF this a] have "diff_files a = diff_files st" .
  with b assms(3) show ?thesis
    by (auto simp: parse_line_path close_file_def)
qed

theorem second_path_line_discards_open_file_witness:
  "diff_files
     \<lparr>diff_files = [], current_file = Some \<lparr>path = ''b'', lines = [], comments = []\<rparr>,
      current_hunk = ''-1 +1'', cur_old_line_no = 1, cur_new_line_no = 2\<rparr> = [] \<and>
   close_file
     \<lparr>diff_files = [], current_file = Some \<lparr>path = ''b'', lines = [], comments = []\<rparr>,
      current_hunk = ''-1 +1'', cur_old_line_no = 1, cur_new_line_no = 2\<rparr> =
     [\<lparr>path = ''b'', lines = [], comments = []\<rparr>]"
proof -
  let ?st' = "\<lparr>diff_files = [],
      current_file = Some \<lparr>path = ''b'', lines = [], comments = []\<rparr>,
      current_hunk = ''-1 +1'', cur_old_line_no = 1, cur_new_line_no = 2\<rparr>"
  have 1: "startswith ''+++ b/a'' ''+++''"
    by code_simp
  have 2: "\<forall>l\<in>set [''@@ -1 +1 @@'', ''+x'']. \<not> startswith l ''diff --git''"
    by code_simp
  have 3: "startswith ''+++ b/b'' ''+++''"
    by code_simp
  have 4: "parse_lines init_state (''+++ b/a'' # [''@@ -1 +1 @@'', ''+x''] @ [''+++ b/b'']) =
      Inr ?st'"
    by code_simp
  have 5: "new_path ''+++ b/b'' = ''b''"
    by code_simp
  from second_path_line_discards_open_file [OF 1 2 3 4] 5
  show ?thesis
    by (simp add: init_state_def)
qed

section \<open>The hunk text carried by the records\<close>

lemma parse_line_keeps_hunk:
  assumes "\<not> startswith line ''@@''" and "parse_line st line = Inr st1"
  shows "current_hunk st1 = current_hunk st"
proof (cases rule: parse_line_cases [where line = line and st = st])
  case git
  with assms(2) show ?thesis by (auto simp: parse_line_git)
next
  case path
  with assms(2) show ?thesis by (auto simp: parse_line_path)
next
  case hunk
  with assms(1) show ?thesis by simp
next
  case (body f)
  with assms(2) show ?thesis by (auto simp: content_line_keeps)
next
  case idle
  with assms(2) show ?thesis by simp
qed

lemma parse_lines_keeps_hunk:
  assumes "\<forall>l\<in>set ls. \<not> startswith l ''@@''" and "parse_lines st ls = Inr st'"
  shows "current_hunk st' = current_hunk st"
  using assms
proof (induction ls arbitrary: st)
  case Nil
  then show ?case by simp
next
  case (Cons l ls)
  from Cons.prems(2) obtain st1 where 1: "parse_line st l = Inr st1"
    and 2: "parse_lines st1 ls = Inr st'"
    by (auto simp: bind_err_eq_Inr)
  from Cons.prems(1) have "current_hunk st1 = current_hunk st"
    by (intro parse_line_keeps_hunk [OF _ 1]) simp
  with Cons.IH [OF _ 2] Cons.prems(1) show ?case by simp
qed

lemma parse_line_sets_hunk:
  assumes "hunk_re_match h = Some (g1, g2)" and "parse_line st h = Inr st1"
  shows "current_hunk st1 = strip (split h ''@@'' ! 1)"
proof -
  note p = startswith_hunk_prefix [OF hunk_re_match_Some(1) [OF assms(1)]]
  from assms(2) obtain s where s: "hunk_update st h = Inr s"
    and e: "current_hunk st1 = current_hunk s"
    by (auto simp: parse_line_hunk [OF p(1)] bind_err_eq_Inr split: option.splits)
  from s assms(1) have "current_hunk s = strip (split h ''@@'' ! 1)"
    by (auto simp: hunk_update_eq [OF p(1)] split: if_splits)
  with e show ?thesis by simp
qed

text \<open>
  Claim C2, as the code has it. When a line matches the hunk pattern, the current hunk
  text becomes the part of that line between its first two \<open>@@\<close> markers, with the
  surrounding whitespace removed (not the whole line), and it stays so over all
  following lines up to the next line that starts with \<open>@@\<close>. Every added, removed
  or context record made in between is appended to the open file with that text as
  its \<open>hunk_header\<close>.
\<close>

theorem hunk_text_carried_by_records:
  assumes "hunk_re_match h = Some (g1, g2)"
    and "\<forall>l\<in>set ls. \<not> startswith l ''@@''"
    and "parse_lines st (h # ls) = Inr st1"
    and "current_file st1 = Some f"
    and "line \<noteq> []" and "hd line \<in> {CHR ''+'', CHR ''-'', CHR '' ''}"
    and "\<not> startswith line ''+++''"
    and "parse_line st1 line = Inr st2"
  shows "current_hunk st1 = strip (split h ''@@'' ! 1) \<and>
         (\<exists>r. current_file st2 = Some (f\<lparr>lines := lines f @ [r]\<rparr>) \<and>
              line_type r = [hd line] \<and>
              hunk_header r = strip (split h ''@@'' ! 1))"
proof -
  from assms(3) obtain a where a: "parse_line st h = Inr a"
    and b: "parse_lines a ls = Inr st1"
    by (auto simp: bind_err_eq_Inr)
  from parse_lines_keeps_hunk [OF assms(2) b] parse_line_sets_hunk [OF assms(1) a]
  have h: "current_hunk st1 = strip (split h ''@@'' ! 1)" by simp
  from assms(5,6) have n: "\<not> startswith line ''diff --git''" "\<not> startswith line ''@@''"
    by (cases line; auto simp: startswith_def)+
  from parse_line_content [OF assms(4,5) n(1) assms(7) n(2)] assms(8)
  have "st2 = content_line st1 f line" by simp
  with assms(5,6) h show ?thesis
    by (auto simp: content_line_def startswith_char append_line_def mk_line_def)
qed

theorem hunk_text_carried_by_records_witness:
  "current_hunk
     \<lparr>diff_files = [],
      current_file = Some \<lparr>path = ''x'',
        lines = [\<lparr>line_type = ''@'', content = ''@@ -1,2 +1,3 @@'', old_line_no = None,
                  new_line_no = None, file_path = ''x'',
                  hunk_header = ''@@ -1,2 +1,3 @@''\<rparr>,
                 \<lparr>line_type = ''-'', content = ''a'', old_line_no = Some 1,
                  new_line_no = None, file_path = ''x'', hunk_header = ''-1,2 +1,3''\<rparr>],
        comments = []\<rparr>,
      current_hunk = ''-1,2 +1,3'', cur_old_line_no = 2, cur_new_line_no = 1\<rparr> =
     ''-1,2 +1,3'' \<and>
   (\<exists>r::DiffLine. line_type r = '' '' \<and> hunk_header r = ''-1,2 +1,3'')"
proof -
  let ?f = "\<lparr>path = ''x'',
        lines = [\<lparr>line_type = ''@'', content = ''@@ -1,2 +1,3 @@'', old_line_no = None,
                  new_line_no = None, file_path = ''x'',
                  hunk_header = ''@@ -1,2 +1,3 @@''\<rparr>,
                 \<lparr>line_type = ''-'', content = ''a'', old_line_no = Some 1,
                  new_line_no = None, file_path = ''x'', hunk_header = ''-1,2 +1,3''\<rparr>],
        comments = []\<rparr>"
  let ?st = "\<lparr>diff_files = [],
      current_file = Some \<lparr>path = ''x'', lines = [], comments = []\<rparr>,
      current_hunk = [], cur_old_line_no = 0, cur_new_line_no = 0\<rparr>"
  let ?st1 = "\<lparr>diff_files = [], current_file = Some ?f,
      current_hunk = ''-1,2 +1,3'', cur_old_line_no = 2, cur_new_line_no = 1\<rparr>"
  have 1: "hunk_re_match ''@@ -1,2 +1,3 @@'' = Some (''1'', ''1'')"
    by code_simp
  have 2: "\<forall>l\<in>set [''-a'']. \<not> startswith l ''@@''"
    by code_simp
  have 3: "parse_lines ?st (''@@ -1,2 +1,3 @@'' # [''-a'']) = Inr ?st1"
    by code_simp
  have 4: "current_file ?st1 = Some ?f"
    by simp
  have 5: "'' line1'' \<noteq> []" and 6: "hd '' line1'' \<in> {CHR ''+'', CHR ''-'', CHR '' ''}"
    by simp_all
  have 7: "\<not> startswith '' line1'' ''+++''"
    by code_simp
  obtain st2 where 8: "parse_line ?st1 '' line1'' = Inr st2"
    by (simp add: parse_line_def startswith_def)
  have 9: "strip (split ''@@ -1,2 +1,3 @@'' ''@@'' ! 1) = ''-1,2 +1,3''"
    by code_simp
  from hunk_text_carried_by_records [OF 1 2 3 4 5 6 7 8, unfolded 9]
  show ?thesis
    by auto
qed

text \<open>The context record after the hunk line \<open>@@ -1,2 +1,3 @@\<close> has the hunk text
  \<open>-1,2 +1,3\<close>; only the hunk-header record itself has the whole line.\<close>

theorem hunk_header_is_not_full_line:
  "parse_diff ''+++ b/x\<newline>@@ -1,2 +1,3 @@\<newline> line1'' =
     Inr \<lparr>files = [\<lparr>path = ''x'',
       lines =
         [\<lparr>line_type = ''@'', content = ''@@ -1,2 +1,3 @@'', old_line_no = None,
            new_line_no = None, file_path = ''x'', hunk_header = ''@@ -1,2 +1,3 @@''\<rparr>,
          \<lparr>line_type = '' '', content = ''line1'', old_line_no = Some 1,
            new_line_no = Some 1, file_path = ''x'', hunk_header = ''-1,2 +1,3''\<rparr>],
       comments = []\<rparr>]\<rparr>"
  by code_simp

section \<open>When the parser returns\<close>

lemma parse_line_error:
  "parse_line st l = Inl e \<longleftrightarrow>
     e = ValueError \<and>
     (\<exists>g1 g2. hunk_re_match l = Some (g1, g2) \<and>
        (int_max_str_digits < length g1 \<or> int_max_str_digits < length g2))"
proof (cases "hunk_re_match l")
  case None
  have "parse_line st l \<noteq> Inl e"
  proof (cases rule: parse_line_cases [where line = l and st = st])
    case git
    then show ?thesis by (simp add: parse_line_git)
  next
    case path
    then show ?thesis by (simp add: parse_line_path)
  next
    case hunk
    with None show ?thesis by (simp add: parse_line_hunk hunk_update_eq)
  next
    case (body f)
    then show ?thesis by simp
  next
    case idle
    then show ?thesis by simp
  qed
  with None show ?thesis by simp
next
  case (Some g)
  obtain g1 g2 where g: "g = (g1, g2)" by (cases g)
  note p = startswith_hunk_prefix [OF hunk_re_match_Some(1) [OF Some [unfolded g]]]
  from Some g show ?thesis
    by (auto simp: parse_line_hunk [OF p(1)] hunk_update_eq [OF p(1)])
qed

lemma parse_line_cases_sum:
  "(\<exists>st'. parse_line st l = Inr st') \<longleftrightarrow>
     (\<forall>g1 g2. hunk_re_match l = Some (g1, g2) \<longrightarrow>
        length g1 \<le> int_max_str_digits \<and> length g2 \<le> int_max_str_digits)"
proof (cases "parse_line st l")
  case (Inl e)
  with parse_line_error [of st l e] show ?thesis by auto
next
  case (Inr s)
  have "\<not> (\<exists>e. parse_line st l = Inl e)" using Inr by simp
  with parse_line_error [of st l ValueError] Inr show ?thesis
    by (auto simp: not_less)
qed

lemma parse_lines_returns_iff:
  "(\<exists>st'. parse_lines st ls = Inr st') \<longleftrightarrow>
     (\<forall>l\<in>set ls. \<forall>g1 g2. hunk_re_match l = Some (g1, g2) \<longrightarrow>
        length g1 \<le> int_max_str_digits \<and> length g2 \<le> int_max_str_digits)"
proof (induction ls arbitrary: st)
  case Nil
  show ?case by simp
next
  case (Cons l ls)
  show ?case
  proof (cases "parse_line st l")
    case (Inl e)
    with parse_line_cases_sum [of st l] show ?thesis by auto
  next
    case (Inr s)
    with parse_line_cases_sum [of st l] Cons.IH [of s] show ?thesis by auto
  qed
qed

lemma split_aux_no_sep:
  "c \<notin> set s \<Longrightarrow> split_aux [c] acc s = [rev acc @ s]"
  by (induction s arbitrary: acc) (auto simp: startswith_def)

lemma split_no_newline: "CHR 0x0A \<notin> set s \<Longrightarrow> split s [CHR 0x0A] = [s]"
  by (simp add: split_def split_aux_no_sep)

lemma takeWhile_run:
  "P x \<Longrightarrow> \<not> P y \<Longrightarrow> takeWhile P (replicate n x @ y # ys) = replicate n x"
  by (induction n) simp_all

lemma dropWhile_run:
  "P x \<Longrightarrow> \<not> P y \<Longrightarrow> dropWhile P (replicate n x @ y # ys) = y # ys"
  by (induction n) simp_all

lemma long_hunk_match:
  "0 < n \<Longrightarrow> hunk_re_match (''@@ -'' @ replicate n CHR ''1'' @ '' +1 @@'') =
     Some (replicate n CHR ''1'', ''1'')"
proof -
  assume n: "0 < n"
  have d: "isdigit CHR ''1''" "\<not> isdigit CHR '' ''"
    by (simp_all add: isdigit_def)
  have 1: "expect ''@@ -'' (''@@ -'' @ replicate n CHR ''1'' @ '' +1 @@'') =
      Some (replicate n CHR ''1'' @ '' +1 @@'')"
    by (simp add: expect_def startswith_def)
  have 2: "digits1 (replicate n CHR ''1'' @ '' +1 @@'') =
      Some (replicate n CHR ''1'', '' +1 @@'')"
    using n d by (simp add: digits1_def takeWhile_run dropWhile_run)
  have 3: "expect '' '' (opt_count '' +1 @@'') = Some ''+1 @@''"
    by code_simp
  have 4: "expect ''+'' ''+1 @@'' = Some ''1 @@''"
    by code_simp
  have 5: "digits1 ''1 @@'' = Some (''1'', '' @@'')"
    by code_simp
  have 6: "expect '' @@'' (opt_count '' @@'') = Some []"
    by code_simp
  show ?thesis
    unfolding hunk_re_match_def 1 by (simp add: 2 3 4 5 6)
qed

text \<open>
  Claim C8, as the code has it. The only exception the loop can raise is the
  \<open>ValueError\<close> of \<open>int\<close> on a number of more than 4300 digits in a line that matches
  the hunk pattern; the index \<open>[1]\<close> of the split always exists. So \<open>parse_diff\<close>
  returns a document exactly when no matching hunk line of the text names such a
  number, whatever else the text holds (the empty text included). A line that starts
  with none of the three markers while no file is open is skipped: the state stays
  as it is.
\<close>

theorem parse_diff_returns_iff:
  "((\<exists>d. parse_diff diff_text = Inr d) \<longleftrightarrow>
      (\<forall>l\<in>set (split diff_text [CHR 0x0A]). \<forall>g1 g2.
         hunk_re_match l = Some (g1, g2) \<longrightarrow>
         length g1 \<le> int_max_str_digits \<and> length g2 \<le> int_max_str_digits)) \<and>
   (current_file st = None \<and> \<not> startswith line ''diff --git'' \<and>
    \<not> startswith line ''+++'' \<and> \<not> startswith line ''@@'' \<longrightarrow>
      parse_line st line = Inr st)"
proof
  have "(\<exists>d. parse_diff diff_text = Inr d) \<longleftrightarrow>
      (\<exists>s. parse_lines init_state (split diff_text [CHR 0x0A]) = Inr s)"
    by (auto simp: parse_diff_def bind_err_eq_Inr)
  then show "(\<exists>d. parse_diff diff_text = Inr d) \<longleftrightarrow>
      (\<forall>l\<in>set (split diff_text [CHR 0x0A]). \<forall>g1 g2.
         hunk_re_match l = Some (g1, g2) \<longrightarrow>
         length g1 \<le> int_max_str_digits \<and> length g2 \<le> int_max_str_digits)"
    by (simp only: parse_lines_returns_iff)
next
  show "current_file st = None \<and> \<not> startswith line ''diff --git'' \<and>
    \<not> startswith line ''+++'' \<and> \<not> startswith line ''@@'' \<longrightarrow>
      parse_line st line = Inr st"
    by (simp add: parse_line_idle)
qed

theorem parse_diff_returns_iff_witness:
  "(\<exists>d. parse_diff ''junk\<newline>+++ b/x\<newline>@@ -1 +1 @@\<newline>+a'' = Inr d) \<and>
   parse_line init_state ''junk'' = Inr init_state"
proof -
  have 1: "split ''junk\<newline>+++ b/x\<newline>@@ -1 +1 @@\<newline>+a'' [CHR 0x0A] =
      [''junk'', ''+++ b/x'', ''@@ -1 +1 @@'', ''+a'']"
    by code_simp
  have 2: "hunk_re_match ''junk'' = None" "hunk_re_match ''+++ b/x'' = None"
    "hunk_re_match ''@@ -1 +1 @@'' = Some (''1'', ''1'')" "hunk_re_match ''+a'' = None"
    by code_simp+
  have 3: "current_file init_state = None \<and> \<not> startswith ''junk'' ''diff --git'' \<and>
    \<not> startswith ''junk'' ''+++'' \<and> \<not> startswith ''junk'' ''@@''"
    by (simp add: init_state_def startswith_def)
  from parse_diff_returns_iff
    [of "''junk\<newline>+++ b/x\<newline>@@ -1 +1 @@\<newline>+a''" init_state "''junk''"] 3
  show ?thesis
    by (simp add: 1 2 int_max_str_digits_def)
qed

text \<open>A hunk line whose first number has 4301 digits: \<open>int\<close> raises and so does
  \<open>parse_diff\<close>.\<close>

theorem parse_diff_raises_on_long_number:
  "parse_diff (''@@ -'' @ replicate 4301 CHR ''1'' @ '' +1 @@'') = Inl ValueError"
proof -
  let ?l = "''@@ -'' @ replicate 4301 CHR ''1'' @ '' +1 @@''"
  have s: "split ?l [CHR 0x0A] = [?l]"
    by (rule split_no_newline) simp
  have m: "hunk_re_match ?l = Some (replicate 4301 CHR ''1'', ''1'')"
    by (rule long_hunk_match) simp
  have "parse_line init_state ?l = Inl ValueError"
    unfolding parse_line_error using m by (simp add: int_max_str_digits_def)
  then show ?thesis
    unfolding parse_diff_def s by simp
qed

section \<open>The order of the emitted comments\<close>

lemma file_loop_eq: "file_loop acc f = acc @ map (\<lambda>(i, c). comment_entry c) (comments f)"
proof -
  have "foldl (\<lambda>acc (line_idx, c). acc @ [comment_entry c]) acc xs =
      acc @ map (\<lambda>(i, c). comment_entry c) xs" for xs :: "(nat \<times> Comment) list"
    by (induction xs arbitrary: acc) (auto simp: case_prod_beta)
  then show ?thesis by (simp add: file_loop_def)
qed

lemma foldl_file_loop:
  "foldl file_loop acc fs = acc @ concat (map (\<lambda>f. map (\<lambda>(i, c). comment_entry c) (comments f)) fs)"
  by (induction fs arbitrary: acc) (simp_all add: file_loop_eq)

text \<open>
  Claim C1, as the code has it. The emitted list is, file after file in document
  order, the comments of the file in the order of \<open>file.comments.items()\<close>, which is
  the order in which their positions were first given a comment: \<open>d[k] = v\<close> leaves
  the keys as they are when \<open>k\<close> has a comment already and puts \<open>k\<close> last when it has
  none. Nothing sorts the comments by position.
\<close>

theorem feedback_follows_insertion_order:
  "feedback_list (generate_feedback now d) =
     concat (map (\<lambda>f. map (\<lambda>(i, c). comment_entry c) (comments f)) (files d)) \<and>
   map fst (dict_set cs k v) = (if dict_contains cs k then map fst cs else map fst cs @ [k])"
proof
  show "feedback_list (generate_feedback now d) =
     concat (map (\<lambda>f. map (\<lambda>(i, c). comment_entry c) (comments f)) (files d))"
    by (simp add: generate_feedback_def feedback_comments_def foldl_file_loop)
next
  have "map fst (map (\<lambda>(k', v'). if k' = k then (k', v) else (k', v')) cs) = map fst cs"
    by (induction cs) auto
  then show "map fst (dict_set cs k v) =
      (if dict_contains cs k then map fst cs else map fst cs @ [k])"
    by (simp add: dict_set_def)
qed

text \<open>The document of \<open>+++ b/x\<close>, \<open>@@ -1 +1 @@\<close>, \<open> a\<close>, \<open>+b\<close>, with a comment made on
  position 2 (line 2) first and on position 1 (line 1) after it: the comment on line 2
  is emitted first.\<close>

theorem later_line_emitted_first:
  "feedback_list (generate_feedback ''2026-01-01T00:00:00+00:00''
     (diff (projr (on_input_submitted
        (action_create_comment
           (projr (on_input_submitted
              (action_create_comment (init_app
                 \<lparr>files = [\<lparr>path = ''x'',
                    lines =
                      [\<lparr>line_type = ''@'', content = ''@@ -1 +1 @@'', old_line_no = None,
                         new_line_no = None, file_path = ''x'', hunk_header = ''@@ -1 +1 @@''\<rparr>,
                       \<lparr>line_type = '' '', content = ''a'', old_line_no = Some 1,
                         new_line_no = Some 1, file_path = ''x'', hunk_header = ''-1 +1''\<rparr>,
                       \<lparr>line_type = ''+'', content = ''b'', old_line_no = None,
                         new_line_no = Some 2, file_path = ''x'', hunk_header = ''-1 +1''\<rparr>],
                    comments = []\<rparr>]\<rparr>) 2)
              ''on the later line'')) 1)
        ''on the earlier line'')))) =
     [[(''file'', JStr ''x''), (''line'', JInt 2), (''hunk'', JStr ''-1 +1''),
       (''content'', JStr ''on the later line''), (''context'', JStr ''b'')],
      [(''file'', JStr ''x''), (''line'', JInt 1), (''hunk'', JStr ''-1 +1''),
       (''content'', JStr ''on the earlier line''), (''context'', JStr ''a'')]]"
  by code_simp

section \<open>Creating and reading a comment\<close>

lemma dict_get_set: "dict_get (dict_set cs k v) k = Some v"
proof (cases "dict_contains cs k")
  case True
  then have "map_of (map (\<lambda>(k', v'). if k' = k then (k', v) else (k', v')) cs) k = Some v"
    unfolding dict_contains_def by (induction cs) auto
  with True show ?thesis by (simp add: dict_set_def dict_get_def)
next
  case False
  then have "map_of cs k = None"
    by (simp add: dict_contains_def map_of_eq_None_iff)
  with False show ?thesis by (simp add: dict_set_def dict_get_def map_add_def)
qed

lemma first_index_first:
  assumes "pos < length xs" and "\<forall>j<pos. xs ! j \<noteq> xs ! pos"
  shows "first_index xs (xs ! pos) = Some pos"
  using assms
proof (induction xs arbitrary: pos)
  case Nil
  then show ?case by simp
next
  case (Cons x xs)
  show ?case
  proof (cases pos)
    case 0
    then show ?thesis by simp
  next
    case (Suc n)
    from Cons.prems(2) Suc have "x \<noteq> xs ! n" by auto
    moreover from Cons.prems(2) Suc have "\<forall>j<n. xs ! j \<noteq> xs ! n" by auto
    moreover from Cons.prems(1) Suc have "n < length xs" by simp
    ultimately show ?thesis using Cons.IH [of n] Suc by simp
  qed
qed

lemma all_lines_nth:
  assumes "fi < length fs" and "pos < length (lines (fs ! fi))"
  shows "length (concat (map lines (take fi fs))) + pos < length (concat (map lines fs)) \<and>
         concat (map lines fs) ! (length (concat (map lines (take fi fs))) + pos) =
           lines (fs ! fi) ! pos"
  using assms
proof (induction fs arbitrary: fi)
  case Nil
  then show ?case by simp
next
  case (Cons f fs)
  show ?case
  proof (cases fi)
    case 0
    with Cons.prems show ?thesis by (simp add: nth_append)
  next
    case (Suc n)
    with Cons.prems Cons.IH [of n] show ?thesis by (simp add: nth_append)
  qed
qed

lemma line_to_file_nth:
  assumes "fi < length fs" and "pos < length (lines (fs ! fi))"
  shows "length (concat (map lines (take fi fs))) + pos <
           length (concat (map (\<lambda>(i, f). replicate (length (lines f)) i) (enumerate n fs))) \<and>
         concat (map (\<lambda>(i, f). replicate (length (lines f)) i) (enumerate n fs)) !
           (length (concat (map lines (take fi fs))) + pos) = n + fi"
  using assms
proof (induction fs arbitrary: fi n)
  case Nil
  then show ?case by simp
next
  case (Cons f fs)
  show ?case
  proof (cases fi)
    case 0
    with Cons.prems show ?thesis by (simp add: nth_append)
  next
    case (Suc m)
    with Cons.prems Cons.IH [of m "Suc n"] show ?thesis by (simp add: nth_append)
  qed
qed

text \<open>
  Claim C5, as the code has it. Let the application hold the flattened lines of its
  document, and let the line at position \<open>pos\<close> of file \<open>fi\<close> be the one being edited,
  with no equal line before it in that file (the scan by equality then finds \<open>pos\<close>).
  Submitting a text whose trimmed form is not empty succeeds, leaves the lines of the
  file as they are, and the comment then found at position \<open>pos\<close> has the trimmed
  text as its content, the line's content as its context, the line's hunk text as
  its hunk, the file's path, and \<open>new_line_no or old_line_no\<close> as its line number.
\<close>

theorem upsert_then_get_comment:
  assumes "fi < length (files (diff app))"
    and "pos < length (lines (files (diff app) ! fi))"
    and "\<forall>j<pos. lines (files (diff app) ! fi) ! j \<noteq> lines (files (diff app) ! fi) ! pos"
    and "strip v \<noteq> []"
    and "all_lines app = all_lines (init_app (diff app))"
    and "line_to_file app = line_to_file (init_app (diff app))"
    and "editing app"
    and "edit_line_idx app = Some (widget_index (diff app) fi pos)"
  shows "\<exists>app'. on_input_submitted app v = Inr app' \<and>
           lines (files (diff app') ! fi) = lines (files (diff app) ! fi) \<and>
           get_comment (diff app') fi pos =
             Some \<lparr>comment_file = path (files (diff app) ! fi),
                   line_no = py_or (new_line_no (lines (files (diff app) ! fi) ! pos))
                                   (old_line_no (lines (files (diff app) ! fi) ! pos)),
                   hunk = hunk_header (lines (files (diff app) ! fi) ! pos),
                   comment_content = strip v,
                   comment_context = content (lines (files (diff app) ! fi) ! pos)\<rparr>"
proof -
  let ?fs = "files (diff app)"
  let ?f = "?fs ! fi"
  let ?line = "lines ?f ! pos"
  let ?idx = "widget_index (diff app) fi pos"
  from all_lines_nth [OF assms(1,2)] assms(5)
  have a: "?idx < length (all_lines app)" "all_lines app ! ?idx = ?line"
    by (simp_all add: init_app_def widget_index_def)
  from line_to_file_nth [OF assms(1,2), of 0] assms(6)
  have l: "?idx < length (line_to_file app)" "line_to_file app ! ?idx = fi"
    by (simp_all add: init_app_def widget_index_def)
  from first_index_first [OF assms(2,3)]
  have i: "file_line_idx (lines ?f) ?line = pos"
    by (simp add: file_line_idx_def)
  let ?app' = "app\<lparr>diff := \<lparr>files = ?fs
      [fi := ?f\<lparr>comments := dict_set (comments ?f) pos (mk_comment ?f ?line (strip v))\<rparr>]\<rparr>,
      editing := False, edit_line_idx := None\<rparr>"
  have r: "on_input_submitted app v = Inr ?app'"
    using assms(1,4,7,8) a l i by (simp add: on_input_submitted_def getitem_def)
  have "get_comment (diff ?app') fi pos = Some (mk_comment ?f ?line (strip v))"
    using assms(1) by (simp add: get_comment_def dict_get_set)
  moreover have "lines (files (diff ?app') ! fi) = lines ?f"
    using assms(1) by simp
  ultimately show ?thesis
    using r by (simp add: mk_comment_def)
qed

theorem upsert_then_get_comment_witness:
  "\<exists>app'. on_input_submitted
      (action_create_comment (init_app
         \<lparr>files = [\<lparr>path = ''x'',
            lines =
              [\<lparr>line_type = ''@'', content = ''@@ -1 +1 @@'', old_line_no = None,
                 new_line_no = None, file_path = ''x'', hunk_header = ''@@ -1 +1 @@''\<rparr>,
               \<lparr>line_type = '' '', content = ''a'', old_line_no = Some 1,
                 new_line_no = Some 1, file_path = ''x'', hunk_header = ''-1 +1''\<rparr>,
               \<lparr>line_type = ''+'', content = ''b'', old_line_no = None,
                 new_line_no = Some 2, file_path = ''x'', hunk_header = ''-1 +1''\<rparr>],
            comments = []\<rparr>]\<rparr>) 2) '' hi '' = Inr app' \<and>
     get_comment (diff app') 0 2 =
       Some \<lparr>comment_file = ''x'', line_no = Some 2, hunk = ''-1 +1'',
             comment_content = ''hi'', comment_context = ''b''\<rparr>"
proof -
  let ?d = "\<lparr>files = [\<lparr>path = ''x'',
           lines =
             [\<lparr>line_type = ''@'', content = ''@@ -1 +1 @@'', old_line_no = None,
                new_line_no = None, file_path = ''x'', hunk_header = ''@@ -1 +1 @@''\<rparr>,
              \<lparr>line_type = '' '', content = ''a'', old_line_no = Some 1,
                new_line_no = Some 1, file_path = ''x'', hunk_header = ''-1 +1''\<rparr>,
              \<lparr>line_type = ''+'', content = ''b'', old_line_no = None,
                new_line_no = Some 2, file_path = ''x'', hunk_header = ''-1 +1''\<rparr>],
           comments = []\<rparr>]\<rparr>"
  let ?app = "action_create_comment (init_app ?d) 2"
  have d: "diff ?app = ?d"
    by (simp add: action_create_comment_def init_app_def)
  have 1: "0 < length (files (diff ?app))"
    and 2: "2 < length (lines (files (diff ?app) ! 0))"
    unfolding d by simp_all
  have 3: "\<forall>j<2. lines (files (diff ?app) ! 0) ! j \<noteq> lines (files (diff ?app) ! 0) ! 2"
    unfolding d by (simp add: less_Suc_eq numeral_2_eq_2)
  have 4: "strip '' hi '' \<noteq> []"
    by code_simp
  have 5: "all_lines ?app = all_lines (init_app (diff ?app))"
    and 6: "line_to_file ?app = line_to_file (init_app (diff ?app))"
    and 7: "editing ?app"
    and 8: "edit_line_idx ?app = Some (widget_index (diff ?app) 0 2)"
    by (simp_all add: action_create_comment_def init_app_def widget_index_def)
  have 9: "strip '' hi '' = ''hi''"
    by code_simp
  from upsert_then_get_comment [OF 1 2 3 4 5 6 7 8, unfolded 9 d]
  show ?thesis
    by (auto simp: py_or_def)
qed

text \<open>The content of the stored comment is the trimmed text, not the text as
  submitted: \<open>'' hi ''\<close> is stored as \<open>''hi''\<close>.\<close>

theorem stored_content_is_trimmed:
  "get_comment (diff (projr (on_input_submitted
      (action_create_comment (init_app
         \<lparr>files = [\<lparr>path = ''x'',
            lines =
              [\<lparr>line_type = ''@'', content = ''@@ -1 +1 @@'', old_line_no = None,
                 new_line_no = None, file_path = ''x'', hunk_header = ''@@ -1 +1 @@''\<rparr>,
               \<lparr>line_type = '' '', content = ''a'', old_line_no = Some 1,
                 new_line_no = Some 1, file_path = ''x'', hunk_header = ''-1 +1''\<rparr>,
               \<lparr>line_type = ''+'', content = ''b'', old_line_no = None,
                 new_line_no = Some 2, file_path = ''x'', hunk_header = ''-1 +1''\<rparr>],
            comments = []\<rparr>]\<rparr>) 2) '' hi ''))) 0 2 =
     Some \<lparr>comment_file = ''x'', line_no = Some 2, hunk = ''-1 +1'',
           comment_content = ''hi'', comment_context = ''b''\<rparr>"
  by code_simp

section \<open>An empty submission\<close>

text \<open>
  Claim C7. When the trimmed text is empty, the submission is a cancellation: if an
  edit was in progress it is ended (\<open>editing\<close> cleared, no line being edited), and
  nothing else changes; in particular the document with all its comment mappings is
  the one from before.
\<close>

theorem empty_submission_cancels:
  assumes "strip v = []"
  shows "on_input_submitted app v =
           Inr (if editing app \<and> edit_line_idx app \<noteq> None
                then app\<lparr>editing := False, edit_line_idx := None\<rparr> else app) \<and>
         bind_err (on_input_submitted app v) (\<lambda>app'. Inr (diff app')) = Inr (diff app)"
  using assms
  by (cases "edit_line_idx app")
     (simp_all add: on_input_submitted_def action_cancel_edit_def)

theorem empty_submission_cancels_witness:
  "bind_err (on_input_submitted
      (action_create_comment (init_app
         \<lparr>files = [\<lparr>path = ''x'',
            lines =
              [\<lparr>line_type = ''@'', content = ''@@ -1 +1 @@'', old_line_no = None,
                 new_line_no = None, file_path = ''x'', hunk_header = ''@@ -1 +1 @@''\<rparr>,
               \<lparr>line_type = '' '', content = ''a'', old_line_no = Some 1,
                 new_line_no = Some 1, file_path = ''x'', hunk_header = ''-1 +1''\<rparr>,
               \<lparr>line_type = ''+'', content = ''b'', old_line_no = None,
                 new_line_no = Some 2, file_path = ''x'', hunk_header = ''-1 +1''\<rparr>],
            comments = []\<rparr>]\<rparr>) 2) [CHR 0x20, CHR 0x20, CHR 0x20])
     (\<lambda>app'. Inr (diff app')) =
   Inr \<lparr>files = [\<lparr>path = ''x'',
          lines =
            [\<lparr>line_type = ''@'', content = ''@@ -1 +1 @@'', old_line_no = None,
               new_line_no = None, file_path = ''x'', hunk_header = ''@@ -1 +1 @@''\<rparr>,
             \<lparr>line_type = '' '', content = ''a'', old_line_no = Some 1,
               new_line_no = Some 1, file_path = ''x'', hunk_header = ''-1 +1''\<rparr>,
             \<lparr>line_type = ''+'', content = ''b'', old_line_no = None,
               new_line_no = Some 2, file_path = ''x'', hunk_header = ''-1 +1''\<rparr>],
          comments = []\<rparr>]\<rparr>"
proof -
  have 1: "strip [CHR 0x20, CHR 0x20, CHR 0x20] = []"
    by code_simp
  from empty_submission_cancels [OF 1] show ?thesis
    by (simp add: action_create_comment_def init_app_def)
qed

section \<open>The line number of a comment\<close>

text \<open>
  Claim C4 at a line whose new-line number is present and zero. The text \<open>+++ b/x\<close>,
  \<open>@@ -5 +0 @@\<close>, \<open> ctx\<close> parses to a context line with old number 5 and new number 0;
  \<open>line.new_line_no or line.old_line_no\<close> takes 0 for false, and the comment made on
  that line gets the line number 5.
\<close>

theorem zero_new_line_number_is_skipped:
  "parse_diff ''+++ b/x\<newline>@@ -5 +0 @@\<newline> ctx'' =
     Inr \<lparr>files = [\<lparr>path = ''x'',
       lines =
         [\<lparr>line_type = ''@'', content = ''@@ -5 +0 @@'', old_line_no = None,
            new_line_no = None, file_path = ''x'', hunk_header = ''@@ -5 +0 @@''\<rparr>,
          \<lparr>line_type = '' '', content = ''ctx'', old_line_no = Some 5,
            new_line_no = Some 0, file_path = ''x'', hunk_header = ''-5 +0''\<rparr>],
       comments = []\<rparr>]\<rparr> \<and>
   get_comment (diff (projr (on_input_submitted
      (action_create_comment (init_app (projr
         (parse_diff ''+++ b/x\<newline>@@ -5 +0 @@\<newline> ctx''))) 1) ''note''))) 0 1 =
     Some \<lparr>comment_file = ''x'', line_no = Some 5, hunk = ''-5 +0'',
           comment_content = ''note'', comment_context = ''ctx''\<rparr>"
  by code_simp

end
